theory Spec2Isabelle
  imports Main "HOL-Library.AList"
begin

section \<open>Python values, exceptions and list primitives\<close>

text \<open>
  Keyword-argument values that reach the host commands.  Callables and widget
  references are kept by name only.
\<close>

datatype pyval = PyNone | PyBool bool | PyInt int | PyStr string | PyCallable string

type_synonym kwargs = "(string \<times> pyval) list"

text \<open>
  The exceptions that can leave the wrapper.  \<open>RuntimeError\<close> is what the host
  commands raise; \<open>MelUIError\<close> carries the three values that are formatted
  into its message: the command, the proposed name and the keyword arguments.
\<close>

datatype py_error =
    IndexError
  | TypeError
  | ValueError
  | AttributeError
  | RuntimeError
  | MelUIError string string kwargs

definition and_then :: "py_error + 'a \<Rightarrow> ('a \<Rightarrow> py_error + 'b) \<Rightarrow> py_error + 'b" where
  "and_then m f = (case m of Inl e \<Rightarrow> Inl e | Inr x \<Rightarrow> f x)"

text \<open>\<open>xs[i]\<close>: negative indices count from the end, out of range raises.\<close>

definition py_getitem :: "'a list \<Rightarrow> int \<Rightarrow> py_error + 'a" where
  "py_getitem xs i =
     (let n = int (length xs); j = (if i < 0 then i + n else i)
      in if 0 \<le> j \<and> j < n then Inr (xs ! nat j) else Inl IndexError)"

text \<open>\<open>xs.pop(i)\<close>: returns the removed element and the shortened list.\<close>

definition py_pop :: "'a list \<Rightarrow> int \<Rightarrow> py_error + ('a \<times> 'a list)" where
  "py_pop xs i =
     (let n = int (length xs); j = (if i < 0 then i + n else i)
      in if 0 \<le> j \<and> j < n
         then Inr (xs ! nat j, take (nat j) xs @ drop (Suc (nat j)) xs)
         else Inl IndexError)"

text \<open>\<open>xs.insert(i, x)\<close>: never raises, the position is clipped to the list.\<close>

definition py_insert :: "'a list \<Rightarrow> int \<Rightarrow> 'a \<Rightarrow> 'a list" where
  "py_insert xs i x =
     (let n = int (length xs);
          j = (if i < 0 then max 0 (i + n) else min i n)
      in take (nat j) xs @ x # drop (nat j) xs)"

text \<open>\<open>[ xs[i] for i in idxs ]\<close>\<close>

fun py_getitems :: "'a list \<Rightarrow> int list \<Rightarrow> py_error + 'a list" where
  "py_getitems xs [] = Inr []"
| "py_getitems xs (i # is) =
     and_then (py_getitem xs i) (\<lambda>x. and_then (py_getitems xs is) (\<lambda>ys. Inr (x # ys)))"


section \<open>The host's text scroll list\<close>

text \<open>
  The widgets live in the host application; the wrapper only holds their names and
  calls \<open>cmd.textScrollList\<close> on them.  The host side of one text scroll list is
  modelled by its item strings, its selected positions (1-based, as the host counts)
  and its multi-selection flag.  A query of an array-valued flag on an empty array
  answers \<open>None\<close>: the wrapper guards such queries with \<open>or []\<close>
  (\<open>getSelectedItems\<close>, \<open>getSelectedIdxs\<close>, \<open>getChildren\<close>).  An edit that
  names a position outside \<open>1..numberOfItems\<close> is refused with the host's error.
\<close>

record tsl =
  allItems :: "string list"
  selectIndexedItem :: "int list"
  allowMultiSelection :: bool

definition q_allItems :: "tsl \<Rightarrow> string list option" where
  "q_allItems t = (if allItems t = [] then None else Some (allItems t))"

definition q_selectIndexedItem :: "tsl \<Rightarrow> int list option" where
  "q_selectIndexedItem t =
     (if selectIndexedItem t = [] then None else Some (selectIndexedItem t))"

definition q_selectItem :: "tsl \<Rightarrow> string list option" where
  "q_selectItem t =
     (if selectIndexedItem t = [] then None
      else Some (map (\<lambda>i. allItems t ! nat (i - 1)) (selectIndexedItem t)))"

definition q_numberOfItems :: "tsl \<Rightarrow> int" where
  "q_numberOfItems t = int (length (allItems t))"

definition e_append :: "string \<Rightarrow> tsl \<Rightarrow> tsl" where
  "e_append x t = t\<lparr>allItems := allItems t @ [x]\<rparr>"

definition e_removeAll :: "tsl \<Rightarrow> tsl" where
  "e_removeAll t = t\<lparr>allItems := [], selectIndexedItem := []\<rparr>"

definition e_deselectAll :: "tsl \<Rightarrow> tsl" where
  "e_deselectAll t = t\<lparr>selectIndexedItem := []\<rparr>"

definition e_selectIndexedItem :: "int \<Rightarrow> tsl \<Rightarrow> py_error + tsl" where
  "e_selectIndexedItem i t =
     (if 1 \<le> i \<and> i \<le> int (length (allItems t))
      then Inr (if allowMultiSelection t
                then (if i \<in> set (selectIndexedItem t) then t
                      else t\<lparr>selectIndexedItem := selectIndexedItem t @ [i]\<rparr>)
                else t\<lparr>selectIndexedItem := [i]\<rparr>)
      else Inl RuntimeError)"

text \<open>
  Removing position \<open>i\<close> drops it from the selection and renumbers the selected
  positions behind it.
\<close>

definition e_removeIndexedItem :: "int \<Rightarrow> tsl \<Rightarrow> py_error + tsl" where
  "e_removeIndexedItem i t =
     (if 1 \<le> i \<and> i \<le> int (length (allItems t))
      then Inr (t\<lparr>allItems := take (nat (i - 1)) (allItems t) @ drop (nat i) (allItems t),
                  selectIndexedItem :=
                    map (\<lambda>j. if i < j then j - 1 else j)
                      (filter (\<lambda>j. j \<noteq> i) (selectIndexedItem t))\<rparr>)
      else Inl RuntimeError)"


section \<open>MelTextScrollList\<close>

text \<open>
  The methods of \<open>MelTextScrollList\<close>, over the host state of the wrapped widget.
  No change callback is registered (\<open>getChangeCB\<close> answers \<open>None\<close>), so
  \<open>_runCB\<close> does nothing.
\<close>

definition getItems :: "tsl \<Rightarrow> string list option" where
  "getItems t = q_allItems t"

definition getSelectedItems :: "tsl \<Rightarrow> string list" where
  "getSelectedItems t = (case q_selectItem t of None \<Rightarrow> [] | Some xs \<Rightarrow> xs)"

definition getSelectedIdxs :: "tsl \<Rightarrow> int list" where
  "getSelectedIdxs t =
     map (\<lambda>idx. idx - 1) (case q_selectIndexedItem t of None \<Rightarrow> [] | Some xs \<Rightarrow> xs)"

definition selectByIdx :: "int \<Rightarrow> tsl \<Rightarrow> py_error + tsl" where
  "selectByIdx idx t = e_selectIndexedItem (idx + 1) t"

definition append :: "string \<Rightarrow> tsl \<Rightarrow> tsl" where
  "append item t = e_append item t"

definition removeByIdx :: "int \<Rightarrow> tsl \<Rightarrow> py_error + tsl" where
  "removeByIdx idx t = e_removeIndexedItem (idx + 1) t"

definition clear :: "tsl \<Rightarrow> tsl" where
  "clear t = e_removeAll t"

definition clearSelection :: "tsl \<Rightarrow> tsl" where
  "clearSelection t = e_deselectAll t"

definition len :: "tsl \<Rightarrow> int" where
  "len t = q_numberOfItems t"

text \<open>\<open>setItems\<close>: \<open>clear\<close>, then \<open>append\<close> each item in turn.\<close>

definition setItems :: "string list \<Rightarrow> tsl \<Rightarrow> tsl" where
  "setItems items t = fold append items (clear t)"

text \<open>
  The loop shared by both move operations,
  \<open>for idx in reversed(selIdxs): item = items.pop(idx); items.insert(idx -/+ count, item)\<close>,
  with the signed offset \<open>d\<close> and the indices in the order the loop visits them.
\<close>

fun pop_insert_loop :: "int \<Rightarrow> int list \<Rightarrow> 'a list \<Rightarrow> py_error + 'a list" where
  "pop_insert_loop d [] items = Inr items"
| "pop_insert_loop d (idx # rest) items =
     and_then (py_pop items idx)
       (\<lambda>(item, items'). pop_insert_loop d rest (py_insert items' (idx + d) item))"

text \<open>\<open>for idx in selIdxs: self.selectByIdx(idx -/+ count, False)\<close>\<close>

fun select_loop :: "int \<Rightarrow> int list \<Rightarrow> tsl \<Rightarrow> py_error + tsl" where
  "select_loop d [] t = Inr t"
| "select_loop d (idx # rest) t = and_then (selectByIdx (idx + d) t) (select_loop d rest)"

text \<open>
  The two move operations call \<open>self.getItems()\<close> and \<open>self.setItems(items)\<close>, which
  are looked up on the class of \<open>self\<close>.  The next two definitions are the methods as
  they run on a plain \<open>MelTextScrollList\<close>, where \<open>getItems\<close> is the unguarded host
  query of line 541.  \<open>MelObjectScrollList\<close> inherits both methods and overrides
  \<open>getItems\<close>, \<open>clear\<close> and \<open>append\<close>; how the methods run on that class is
  \<open>obj_moveSelectedItemsUp\<close> and \<open>obj_moveSelectedItemsDown\<close> in the next section.
\<close>

definition moveSelectedItemsUp :: "int \<Rightarrow> tsl \<Rightarrow> py_error + tsl" where
  "moveSelectedItemsUp count t =
     (let selIdxs = sort (getSelectedIdxs t) in
      and_then (py_getitem selIdxs 0) (\<lambda>first.
        let count' = min count first in
        if first > 0 then
          (case getItems t of
             None \<Rightarrow> Inl TypeError
           | Some items \<Rightarrow>
               and_then (py_getitems items selIdxs) (\<lambda>itemsToMove.
               and_then (pop_insert_loop (- count') (rev selIdxs) items) (\<lambda>items'.
                 select_loop (- count') selIdxs (clearSelection (setItems items' t)))))
        else Inr t))"

definition moveSelectedItemsDown :: "int \<Rightarrow> tsl \<Rightarrow> py_error + tsl" where
  "moveSelectedItemsDown count t =
     (let selIdxs = sort (getSelectedIdxs t) in
      case getItems t of
        None \<Rightarrow> Inl TypeError
      | Some items \<Rightarrow>
          (let maxIdx = int (length items) - 1 in
           and_then (py_getitem selIdxs (- 1)) (\<lambda>last_idx.
             let count' = min count (maxIdx - last_idx) in
             if last_idx < maxIdx then
               and_then (py_getitems items selIdxs) (\<lambda>itemsToMove.
               and_then (pop_insert_loop count' (rev selIdxs) items) (\<lambda>items'.
                 select_loop count' selIdxs (clearSelection (setItems items' t))))
             else Inr t)))"

text \<open>
  A host state is consistent when every selected position is a position of an item.
\<close>

definition host_ok :: "tsl \<Rightarrow> bool" where
  "host_ok t =
     list_all (\<lambda>i. 1 \<le> i \<and> i \<le> int (length (allItems t))) (selectIndexedItem t)"


section \<open>MelObjectScrollList\<close>

text \<open>
  The object variant keeps the Python objects in \<open>_items\<close> (here \<open>py_items\<close>) and shows their strings in
  the host widget.  \<open>str_of\<close> stands for Python's \<open>str\<close> on the stored objects and
  \<open>dn\<close> for the class attribute \<open>DISPLAY_NAMESPACES\<close>.  No append callback is set
  (\<open>_appendCB\<close> is \<open>None\<close>, as \<open>__init__\<close> leaves it).
\<close>

record 'a obj_list =
  py_items :: "'a list"
  widget :: tsl

text \<open>\<open>s.split(c)\<close> for a one-character separator: one more piece than separators.\<close>

fun split_chr :: "char \<Rightarrow> string \<Rightarrow> string list" where
  "split_chr c [] = [[]]"
| "split_chr c (x # xs) =
     (if x = c then [] # split_chr c xs
      else (case split_chr c xs of [] \<Rightarrow> [[x]] | w # ws \<Rightarrow> (x # w) # ws))"

definition itemAsStr :: "bool \<Rightarrow> ('a \<Rightarrow> string) \<Rightarrow> 'a \<Rightarrow> string" where
  "itemAsStr dn str_of item =
     (if dn then str_of item
      else (let withoutNamespace = last (split_chr CHR '':'' (str_of item));
                withoutPaths = last (split_chr CHR ''|'' withoutNamespace)
            in withoutPaths))"

definition obj_getItems :: "'a obj_list \<Rightarrow> 'a list" where
  "obj_getItems s = py_items s"

definition obj_append :: "bool \<Rightarrow> ('a \<Rightarrow> string) \<Rightarrow> 'a \<Rightarrow> 'a obj_list \<Rightarrow> 'a obj_list" where
  "obj_append dn str_of item s =
     s\<lparr>py_items := py_items s @ [item],
       widget := e_append (itemAsStr dn str_of item) (widget s)\<rparr>"

text \<open>
  A method of the object list changes \<open>_items\<close> before it calls the host, and a host
  call that raises leaves that change in place.  The outcome of a method is therefore
  either a return or an exception, each with the state in which the object and its
  widget are left.
\<close>

datatype 's outcome = Returned 's | Raised py_error 's

definition obj_removeByIdx :: "int \<Rightarrow> 'a obj_list \<Rightarrow> 'a obj_list outcome" where
  "obj_removeByIdx idx s =
     (case py_pop (py_items s) idx of
        Inl e \<Rightarrow> Raised e s
      | Inr (item, rest) \<Rightarrow>
          (case e_removeIndexedItem (idx + 1) (widget s) of
             Inl e \<Rightarrow> Raised e (s\<lparr>py_items := rest\<rparr>)
           | Inr w \<Rightarrow> Returned (s\<lparr>py_items := rest, widget := w\<rparr>)))"

text \<open>\<open>xs.index(v)\<close>: the first position of \<open>v\<close>.\<close>

fun py_index :: "'a list \<Rightarrow> 'a \<Rightarrow> py_error + int" where
  "py_index [] v = Inl ValueError"
| "py_index (x # xs) v =
     (if x = v then Inr 0 else and_then (py_index xs v) (\<lambda>i. Inr (i + 1)))"

text \<open>
  The second branch of \<open>removeByValue\<close> walks \<open>enumerate(self._items)\<close> while popping
  from the same list: the iterator's position \<open>i\<close> goes on by one after every step and
  the loop ends when \<open>i\<close> reaches the current length.
\<close>

function remove_matching ::
  "bool \<Rightarrow> ('a \<Rightarrow> string) \<Rightarrow> string \<Rightarrow> nat \<Rightarrow> 'a obj_list \<Rightarrow> 'a obj_list outcome" where
  "remove_matching dn str_of valueStr i s =
     (if i < length (py_items s) then
        (if itemAsStr dn str_of (py_items s ! i) = valueStr then
           (case py_pop (py_items s) (int i) of
              Inl e \<Rightarrow> Raised e s
            | Inr (item, rest) \<Rightarrow>
                (case e_removeIndexedItem (int i + 1) (widget s) of
                   Inl e \<Rightarrow> Raised e (s\<lparr>py_items := rest\<rparr>)
                 | Inr w \<Rightarrow>
                     remove_matching dn str_of valueStr (Suc i)
                       (s\<lparr>py_items := rest, widget := w\<rparr>)))
         else remove_matching dn str_of valueStr (Suc i) s)
      else Returned s)"
  by pat_completeness auto
termination
  by (relation "measure (\<lambda>(dn, str_of, valueStr, i, s). length (py_items s) - i)")
     (auto simp: py_pop_def Let_def split: if_splits)

text \<open>
  The first branch of \<open>removeByValue\<close> is \<open>index\<close> followed by the two statements of
  \<open>removeByIdx\<close>.
\<close>

definition obj_removeByValue ::
  "bool \<Rightarrow> ('a \<Rightarrow> string) \<Rightarrow> 'a \<Rightarrow> 'a obj_list \<Rightarrow> 'a obj_list outcome" where
  "obj_removeByValue dn str_of v s =
     (if v \<in> set (py_items s) then
        (case py_index (py_items s) v of
           Inl e \<Rightarrow> Raised e s
         | Inr idx \<Rightarrow> obj_removeByIdx idx s)
      else remove_matching dn str_of (itemAsStr dn str_of v) 0 s)"

definition obj_clear :: "'a obj_list \<Rightarrow> 'a obj_list" where
  "obj_clear s = s\<lparr>py_items := [], widget := e_removeAll (widget s)\<rparr>"

text \<open>\<open>setItems\<close> is inherited; its \<open>clear\<close> and \<open>append\<close> are the overriding ones.\<close>

definition obj_setItems ::
  "bool \<Rightarrow> ('a \<Rightarrow> string) \<Rightarrow> 'a list \<Rightarrow> 'a obj_list \<Rightarrow> 'a obj_list" where
  "obj_setItems dn str_of items s = fold (obj_append dn str_of) items (obj_clear s)"

text \<open>\<open>for idx in selIdxs: self.selectByIdx(idx -/+ count, False)\<close> on the object list.\<close>

fun obj_select_loop :: "int \<Rightarrow> int list \<Rightarrow> 'a obj_list \<Rightarrow> 'a obj_list outcome" where
  "obj_select_loop d [] s = Returned s"
| "obj_select_loop d (idx # rest) s =
     (case selectByIdx (idx + d) (widget s) of
        Inl e \<Rightarrow> Raised e s
      | Inr w \<Rightarrow> obj_select_loop d rest (s\<lparr>widget := w\<rparr>))"

definition obj_update ::
  "bool \<Rightarrow> ('a \<Rightarrow> string) \<Rightarrow> bool \<Rightarrow> 'a obj_list \<Rightarrow> 'a obj_list outcome" where
  "obj_update dn str_of maintainSelection s =
     (let selIdxs = getSelectedIdxs (widget s);
          w = fold (\<lambda>item. e_append (itemAsStr dn str_of item)) (py_items s)
                (e_removeAll (widget s))
      in if maintainSelection
         then obj_select_loop 0 selIdxs (s\<lparr>widget := w\<rparr>)
         else Returned (s\<lparr>widget := w\<rparr>))"

text \<open>
  The inherited move operations on the object list.  Here \<open>self.getItems()\<close> is the
  list \<open>_items\<close> itself, so \<open>len(items)\<close> never fails and the loop
  \<open>item = items.pop(idx); items.insert(idx -/+ count, item)\<close> changes \<open>_items\<close> in
  place.  \<open>self.setItems(items)\<close> then binds a new empty list to \<open>_items\<close> (the
  overriding \<open>clear\<close>) and appends the items of the old one.
\<close>

fun obj_pop_insert_loop :: "int \<Rightarrow> int list \<Rightarrow> 'a obj_list \<Rightarrow> 'a obj_list outcome" where
  "obj_pop_insert_loop d [] s = Returned s"
| "obj_pop_insert_loop d (idx # rest) s =
     (case py_pop (py_items s) idx of
        Inl e \<Rightarrow> Raised e s
      | Inr (item, items') \<Rightarrow>
          obj_pop_insert_loop d rest (s\<lparr>py_items := py_insert items' (idx + d) item\<rparr>))"

definition obj_moveSelectedItemsUp ::
  "bool \<Rightarrow> ('a \<Rightarrow> string) \<Rightarrow> int \<Rightarrow> 'a obj_list \<Rightarrow> 'a obj_list outcome" where
  "obj_moveSelectedItemsUp dn str_of count s =
     (let selIdxs = sort (getSelectedIdxs (widget s)) in
      case py_getitem selIdxs 0 of
        Inl e \<Rightarrow> Raised e s
      | Inr first \<Rightarrow>
          (let count' = min count first in
           if first > 0 then
             (case py_getitems (obj_getItems s) selIdxs of
                Inl e \<Rightarrow> Raised e s
              | Inr itemsToMove \<Rightarrow>
                  (case obj_pop_insert_loop (- count') (rev selIdxs) s of
                     Raised e s1 \<Rightarrow> Raised e s1
                   | Returned s1 \<Rightarrow>
                       (let s2 = obj_setItems dn str_of (py_items s1) s1
                        in obj_select_loop (- count') selIdxs
                             (s2\<lparr>widget := clearSelection (widget s2)\<rparr>))))
           else Returned s))"

definition obj_moveSelectedItemsDown ::
  "bool \<Rightarrow> ('a \<Rightarrow> string) \<Rightarrow> int \<Rightarrow> 'a obj_list \<Rightarrow> 'a obj_list outcome" where
  "obj_moveSelectedItemsDown dn str_of count s =
     (let selIdxs = sort (getSelectedIdxs (widget s));
          items = obj_getItems s;
          maxIdx = int (length items) - 1 in
      case py_getitem selIdxs (- 1) of
        Inl e \<Rightarrow> Raised e s
      | Inr last_idx \<Rightarrow>
          (let count' = min count (maxIdx - last_idx) in
           if last_idx < maxIdx then
             (case py_getitems items selIdxs of
                Inl e \<Rightarrow> Raised e s
              | Inr itemsToMove \<Rightarrow>
                  (case obj_pop_insert_loop count' (rev selIdxs) s of
                     Raised e s1 \<Rightarrow> Raised e s1
                   | Returned s1 \<Rightarrow>
                       (let s2 = obj_setItems dn str_of (py_items s1) s1
                        in obj_select_loop count' selIdxs
                             (s2\<lparr>widget := clearSelection (widget s2)\<rparr>))))
           else Returned s))"

text \<open>
  Lock-step: the host shows exactly the strings of the stored objects, in order.
\<close>

definition lockstep :: "bool \<Rightarrow> ('a \<Rightarrow> string) \<Rightarrow> 'a obj_list \<Rightarrow> bool" where
  "lockstep dn str_of s = (allItems (widget s) = map (itemAsStr dn str_of) (py_items s))"


section \<open>MelPaneLayout\<close>

text \<open>
  The pane-size operations, with the host calls they make written down in order.
  \<open>paneSize\<close> is the host's answer to a \<open>paneSize\<close> query for a pane number.
\<close>

datatype pane_call = QueryPaneSize int | EditPaneSize int int int

definition getPaneSize :: "(int \<Rightarrow> int list) \<Rightarrow> int \<Rightarrow> pane_call list \<times> int list" where
  "getPaneSize paneSize idx = (let idx' = idx + 1 in ([QueryPaneSize idx'], paneSize idx'))"

definition setPaneSize :: "int \<Rightarrow> int \<times> int \<Rightarrow> pane_call list" where
  "setPaneSize idx sz = (let idx' = idx + 1 in [EditPaneSize idx' (fst sz) (snd sz)])"

definition setPaneWidth ::
  "(int \<Rightarrow> int list) \<Rightarrow> int \<Rightarrow> int \<Rightarrow> pane_call list \<times> py_error option" where
  "setPaneWidth paneSize idx sz =
     (let idx' = idx + 1;
          (calls, curSize) = getPaneSize paneSize idx'
      in case py_getitem curSize 0 of
           Inl e \<Rightarrow> (calls, Some e)
         | Inr cur0 \<Rightarrow> (calls @ [EditPaneSize idx' cur0 sz], None))"

definition setPaneHeight ::
  "(int \<Rightarrow> int list) \<Rightarrow> int \<Rightarrow> int \<Rightarrow> pane_call list \<times> py_error option" where
  "setPaneHeight paneSize idx sz =
     (let idx' = idx + 1;
          (calls, curSize) = getPaneSize paneSize idx'
      in case py_getitem curSize 1 of
           Inl e \<Rightarrow> (calls, Some e)
         | Inr cur1 \<Rightarrow> (calls @ [EditPaneSize idx' sz cur1], None))"


section \<open>Size and visibility of a widget\<close>

text \<open>
  The host side of a widget's geometry: an edit of width, height or visibility is stored
  and a query reads it back.  \<open>preSize\<close> is the wrapper attribute \<open>_preSize\<close>,
  \<open>None\<close> while it has not been set.
\<close>

record widget_state =
  width :: int
  height :: int
  vis :: bool
  preSize :: "(int \<times> int) option"

definition getSize :: "widget_state \<Rightarrow> int \<times> int" where
  "getSize s = (let w = width s; h = height s in (w, h))"

definition setSize :: "int \<times> int \<Rightarrow> widget_state \<Rightarrow> widget_state" where
  "setSize widthHeight s = s\<lparr>width := fst widthHeight, height := snd widthHeight\<rparr>"

definition getVisibility :: "widget_state \<Rightarrow> bool" where
  "getVisibility s = vis s"

definition setVisibility :: "bool \<Rightarrow> widget_state \<Rightarrow> widget_state" where
  "setVisibility visibility s =
     (let s' = (if visibility
                then (case preSize s of None \<Rightarrow> s | Some sz \<Rightarrow> setSize sz s)
                else setSize (1, 1) (s\<lparr>preSize := Some (getSize s)\<rparr>))
      in s'\<lparr>vis := visibility\<rparr>)"

definition hide :: "widget_state \<Rightarrow> widget_state" where
  "hide s = setVisibility False s"

definition show_widget :: "widget_state \<Rightarrow> widget_state" where
  "show_widget s = setVisibility True s"


section \<open>The widget classes\<close>

text \<open>
  The classes of the module that derive from \<open>BaseMelWidget\<close> (\<open>MelBaseMenu\<close> is
  \<open>_MelBaseMenu\<close>).  Host commands are known by their names: \<open>cmd.button\<close> is
  \<open>''button''\<close>, which is also its \<open>__name__\<close>.
\<close>

datatype cls =
    BaseMelWidget | MelLayout | MelForm | MelColumn | MelRow | MelScrollLayout
  | MelTabLayout | MelPaneLayout | MelLabel | MelButton | MelCheckBox | MelIntField
  | MelFloatField | MelTextField | MelScrollField | MelNameField | MelObjectSelector
  | MelTextScrollList | MelObjectScrollList | MelBaseMenu | MelMenu | MelOptionMenu
  | MelPopupMenu | MelMenuItem | MelMenuItemDiv | MelProgressWindow

text \<open>The method resolution order: the class, then its bases up to \<open>BaseMelWidget\<close>.\<close>

fun mro :: "cls \<Rightarrow> cls list" where
  "mro BaseMelWidget = [BaseMelWidget]"
| "mro MelLayout = [MelLayout, BaseMelWidget]"
| "mro MelForm = [MelForm, MelLayout, BaseMelWidget]"
| "mro MelColumn = [MelColumn, MelLayout, BaseMelWidget]"
| "mro MelRow = [MelRow, MelLayout, BaseMelWidget]"
| "mro MelScrollLayout = [MelScrollLayout, MelLayout, BaseMelWidget]"
| "mro MelTabLayout = [MelTabLayout, MelLayout, BaseMelWidget]"
| "mro MelPaneLayout = [MelPaneLayout, MelLayout, BaseMelWidget]"
| "mro MelLabel = [MelLabel, BaseMelWidget]"
| "mro MelButton = [MelButton, MelLabel, BaseMelWidget]"
| "mro MelCheckBox = [MelCheckBox, BaseMelWidget]"
| "mro MelIntField = [MelIntField, BaseMelWidget]"
| "mro MelFloatField = [MelFloatField, BaseMelWidget]"
| "mro MelTextField = [MelTextField, BaseMelWidget]"
| "mro MelScrollField = [MelScrollField, MelTextField, BaseMelWidget]"
| "mro MelNameField = [MelNameField, MelTextField, BaseMelWidget]"
| "mro MelObjectSelector = [MelObjectSelector, MelForm, MelLayout, BaseMelWidget]"
| "mro MelTextScrollList = [MelTextScrollList, BaseMelWidget]"
| "mro MelObjectScrollList = [MelObjectScrollList, MelTextScrollList, BaseMelWidget]"
| "mro MelBaseMenu = [MelBaseMenu, BaseMelWidget]"
| "mro MelMenu = [MelMenu, MelBaseMenu, BaseMelWidget]"
| "mro MelOptionMenu = [MelOptionMenu, MelBaseMenu, BaseMelWidget]"
| "mro MelPopupMenu = [MelPopupMenu, MelBaseMenu, BaseMelWidget]"
| "mro MelMenuItem = [MelMenuItem, BaseMelWidget]"
| "mro MelMenuItemDiv = [MelMenuItemDiv, MelMenuItem, BaseMelWidget]"
| "mro MelProgressWindow = [MelProgressWindow, BaseMelWidget]"

text \<open>The class attribute \<open>WIDGET_CMD\<close>, as each class sees it.\<close>

fun WIDGET_CMD :: "cls \<Rightarrow> string" where
  "WIDGET_CMD BaseMelWidget = ''control''"
| "WIDGET_CMD MelLayout = ''layout''"
| "WIDGET_CMD MelForm = ''formLayout''"
| "WIDGET_CMD MelColumn = ''columnLayout''"
| "WIDGET_CMD MelRow = ''rowLayout''"
| "WIDGET_CMD MelScrollLayout = ''scrollLayout''"
| "WIDGET_CMD MelTabLayout = ''tabLayout''"
| "WIDGET_CMD MelPaneLayout = ''paneLayout''"
| "WIDGET_CMD MelLabel = ''text''"
| "WIDGET_CMD MelButton = ''button''"
| "WIDGET_CMD MelCheckBox = ''checkBox''"
| "WIDGET_CMD MelIntField = ''intField''"
| "WIDGET_CMD MelFloatField = ''floatField''"
| "WIDGET_CMD MelTextField = ''textField''"
| "WIDGET_CMD MelScrollField = ''scrollField''"
| "WIDGET_CMD MelNameField = ''nameField''"
| "WIDGET_CMD MelObjectSelector = ''formLayout''"
| "WIDGET_CMD MelTextScrollList = ''textScrollList''"
| "WIDGET_CMD MelObjectScrollList = ''textScrollList''"
| "WIDGET_CMD MelBaseMenu = ''control''"
| "WIDGET_CMD MelMenu = ''menu''"
| "WIDGET_CMD MelOptionMenu = ''optionMenu''"
| "WIDGET_CMD MelPopupMenu = ''popupMenu''"
| "WIDGET_CMD MelMenuItem = ''menuItem''"
| "WIDGET_CMD MelMenuItemDiv = ''menuItem''"
| "WIDGET_CMD MelProgressWindow = ''progressWindow''"

text \<open>
  A wrapper object is its widget name together with its class.  The instance attributes
  \<open>parent\<close> and \<open>_changeCB\<close> play no part in what follows and are left out.
\<close>

record inst =
  inst_name :: string
  inst_cls :: cls

definition isinstance :: "inst \<Rightarrow> cls \<Rightarrow> bool" where
  "isinstance i c = (c \<in> set (mro (inst_cls i)))"


section \<open>The instance registry\<close>

text \<open>
  \<open>_INSTANCE_LIST\<close> is a class attribute.  The store gives, for each class, the list
  bound in that class's own namespace, if any; the class body binds one on
  \<open>BaseMelWidget\<close> only.  Reading \<open>cls._INSTANCE_LIST\<close> finds the first binding along
  the method resolution order, assigning to it binds the name on \<open>cls\<close> itself, and
  \<open>cls._INSTANCE_LIST.append\<close> changes the list where it was found.
\<close>

type_synonym class_attrs = "cls \<Rightarrow> inst list option"

fun lookup_attr :: "class_attrs \<Rightarrow> cls list \<Rightarrow> (cls \<times> inst list) option" where
  "lookup_attr a [] = None"
| "lookup_attr a (c # cs) =
     (case a c of Some l \<Rightarrow> Some (c, l) | None \<Rightarrow> lookup_attr a cs)"

definition get_INSTANCE_LIST :: "class_attrs \<Rightarrow> cls \<Rightarrow> py_error + inst list" where
  "get_INSTANCE_LIST a c =
     (case lookup_attr a (mro c) of None \<Rightarrow> Inl AttributeError | Some (owner, l) \<Rightarrow> Inr l)"

definition INSTANCE_LIST_append :: "cls \<Rightarrow> inst \<Rightarrow> class_attrs \<Rightarrow> py_error + class_attrs" where
  "INSTANCE_LIST_append c new a =
     (case lookup_attr a (mro c) of
        None \<Rightarrow> Inl AttributeError
      | Some (owner, l) \<Rightarrow> Inr (a(owner \<mapsto> l @ [new])))"

text \<open>
  \<open>IterInstances\<close>, run to the end of the generator.  \<open>exists cmd name\<close> is the host's
  answer to \<open>cmd(name, q=True, exists=True)\<close>.  The result is the sequence of yielded
  instances and the store after the final assignment.
\<close>

fun iter_loop ::
  "(string \<Rightarrow> string \<Rightarrow> bool) \<Rightarrow> cls \<Rightarrow> inst list \<Rightarrow> inst list \<Rightarrow> inst list" where
  "iter_loop exists c [] existingInstList = existingInstList"
| "iter_loop exists c (i # rest) existingInstList =
     (if \<not> isinstance i c then iter_loop exists c rest existingInstList
      else if exists (WIDGET_CMD c) (inst_name i)
           then iter_loop exists c rest (existingInstList @ [i])
           else iter_loop exists c rest existingInstList)"

definition IterInstances ::
  "(string \<Rightarrow> string \<Rightarrow> bool) \<Rightarrow> cls \<Rightarrow> class_attrs \<Rightarrow> py_error + (inst list \<times> class_attrs)" where
  "IterInstances exists c a =
     and_then (get_INSTANCE_LIST a c) (\<lambda>l.
       let existingInstList = iter_loop exists c l []
       in Inr (existingInstList, a(c \<mapsto> existingInstList)))"


section \<open>Rehydration: FromStr\<close>

text \<open>
  The host calls a constructor or \<open>FromStr\<close> makes, in order.
\<close>

datatype host_call =
    ObjectTypeUI string
  | Exists string string
  | Create string string kwargs

definition TYPE_NAMES_TO_CMDS :: "(string \<times> string) list" where
  "TYPE_NAMES_TO_CMDS = [(''staticText'', ''text''), (''field'', ''textField'')]"

text \<open>
  \<open>TYPE_NAMES_TO_CMDS.get(uiTypeStr, getattr(cmd, uiTypeStr, None))\<close>; \<open>has_cmd\<close> tells
  which names are attributes of the host's command module.
\<close>

definition ui_cmd :: "(string \<Rightarrow> bool) \<Rightarrow> string \<Rightarrow> string option" where
  "ui_cmd has_cmd uiTypeStr =
     (case map_of TYPE_NAMES_TO_CMDS uiTypeStr of
        Some c \<Rightarrow> Some c
      | None \<Rightarrow> (if has_cmd uiTypeStr then Some uiTypeStr else None))"

text \<open>
  \<open>FromStr\<close>.  \<open>objectTypeUI\<close> is the host's type string for a widget name, \<open>None\<close> where
  the host raises because there is no such widget.  \<open>subclasses\<close> is what
  \<open>BaseMelWidget.GetSubclasses()\<close> returns; that helper comes from the class factory in
  another module, so the list is a parameter.  No class of this module sets
  \<open>WIDGET_CMD\<close> to \<open>None\<close>, so the loop's first test never skips.
\<close>

definition FromStr ::
  "(string \<Rightarrow> string option) \<Rightarrow> (string \<Rightarrow> bool) \<Rightarrow> cls list \<Rightarrow> cls \<Rightarrow> string \<Rightarrow> class_attrs
     \<Rightarrow> host_call list \<times> (py_error + (inst \<times> class_attrs))" where
  "FromStr objectTypeUI has_cmd subclasses c theStr a =
     ([ObjectTypeUI theStr],
      case objectTypeUI theStr of
        None \<Rightarrow> Inl RuntimeError
      | Some uiTypeStr \<Rightarrow>
          (let candidates =
                 (case ui_cmd has_cmd uiTypeStr of
                    None \<Rightarrow> []
                  | Some uiCmd \<Rightarrow> filter (\<lambda>subCls. WIDGET_CMD subCls = uiCmd) subclasses);
               theCls = (case candidates of [] \<Rightarrow> c | first # rest \<Rightarrow> first);
               new = \<lparr>inst_name = theStr, inst_cls = theCls\<rparr>
           in and_then (INSTANCE_LIST_append c new a) (\<lambda>a'. Inr (new, a'))))"

definition is_Create :: "host_call \<Rightarrow> bool" where
  "is_Create h = (case h of Create cmd name kw \<Rightarrow> True | _ \<Rightarrow> False)"


section \<open>Verified properties\<close>

subsection \<open>Moving the selection of a text scroll list\<close>

lemmas tsl_defs =
  moveSelectedItemsUp_def moveSelectedItemsDown_def getSelectedIdxs_def getItems_def
  q_allItems_def q_selectIndexedItem_def q_selectItem_def and_then_def py_getitem_def
  py_pop_def py_insert_def setItems_def clear_def append_def e_append_def e_removeAll_def
  clearSelection_def e_deselectAll_def selectByIdx_def e_selectIndexedItem_def
  getSelectedItems_def

lemma py_insert_length: "length (py_insert xs i x) = Suc (length xs)"
  by (simp add: py_insert_def Let_def)

lemma py_pop_in_range:
  assumes "0 \<le> i" "i < int (length xs)"
  shows "\<exists>x ys. py_pop xs i = Inr (x, ys) \<and> Suc (length ys) = length xs"
  using assms by (auto simp: py_pop_def Let_def)

lemma py_getitems_in_range:
  "list_all (\<lambda>i. 0 \<le> i \<and> i < int (length xs)) idxs \<Longrightarrow> \<exists>ys. py_getitems xs idxs = Inr ys"
  by (induction idxs) (auto simp: and_then_def py_getitem_def)

lemma pop_insert_loop_in_range:
  "list_all (\<lambda>i. 0 \<le> i \<and> i < int (length items)) idxs \<Longrightarrow>
     \<exists>items'. pop_insert_loop d idxs items = Inr items' \<and> length items' = length items"
proof (induction idxs arbitrary: items)
  case Nil
  then show ?case by simp
next
  case (Cons idx rest)
  from Cons.prems have r: "0 \<le> idx" "idx < int (length items)" by simp_all
  from py_pop_in_range [OF r] obtain x ys where
    p: "py_pop items idx = Inr (x, ys)" and l: "Suc (length ys) = length items" by blast
  have same: "length (py_insert ys (idx + d) x) = length items"
    using l by (simp add: py_insert_length)
  with Cons.prems
  have "list_all (\<lambda>i. 0 \<le> i \<and> i < int (length (py_insert ys (idx + d) x))) rest"
    by simp
  from Cons.IH [OF this] show ?case
    using p same by (simp add: and_then_def)
qed

lemma select_loop_no_IndexError: "select_loop d idxs t \<noteq> Inl IndexError"
  by (induction idxs arbitrary: t)
     (auto simp: and_then_def selectByIdx_def e_selectIndexedItem_def
           split: sum.splits if_splits)

lemma sorted_selection_in_range:
  assumes "host_ok t"
  shows "list_all (\<lambda>i. 0 \<le> i \<and> i < int (length (allItems t))) (sort (getSelectedIdxs t))"
  using assms
  by (auto simp: host_ok_def getSelectedIdxs_def q_selectIndexedItem_def list_all_iff)

lemma move_up_empty_selection:
  "getSelectedIdxs t = [] \<Longrightarrow> moveSelectedItemsUp count t = Inl IndexError"
  by (simp add: moveSelectedItemsUp_def py_getitem_def and_then_def)

lemma move_down_empty_selection:
  "getSelectedIdxs t = [] \<Longrightarrow>
   moveSelectedItemsDown count t = (if getItems t = None then Inl TypeError else Inl IndexError)"
  by (simp add: moveSelectedItemsDown_def py_getitem_def and_then_def split: option.splits)

lemma move_up_selected_no_IndexError:
  assumes "host_ok t" "getSelectedIdxs t \<noteq> []"
  shows "moveSelectedItemsUp count t \<noteq> Inl IndexError"
proof -
  let ?sel = "sort (getSelectedIdxs t)"
  have r: "list_all (\<lambda>i. 0 \<le> i \<and> i < int (length (allItems t))) ?sel"
    using assms(1) by (rule sorted_selection_in_range)
  have g: "py_getitem ?sel 0 = Inr (?sel ! 0)"
    using assms(2) by (simp add: py_getitem_def)
  obtain ys where y: "py_getitems (allItems t) ?sel = Inr ys"
    using py_getitems_in_range [OF r] by blast
  obtain items' where
    l: "pop_insert_loop (- min count (?sel ! 0)) (rev ?sel) (allItems t) = Inr items'"
    using pop_insert_loop_in_range [of "allItems t" "rev ?sel"] r by auto
  show ?thesis
    using g y l select_loop_no_IndexError
    by (simp add: moveSelectedItemsUp_def Let_def and_then_def getItems_def q_allItems_def)
qed

lemma move_down_selected_no_IndexError:
  assumes "host_ok t" "getSelectedIdxs t \<noteq> []"
  shows "moveSelectedItemsDown count t \<noteq> Inl IndexError"
proof -
  let ?sel = "sort (getSelectedIdxs t)"
  let ?c = "min count (int (length (allItems t)) - 1 - last ?sel)"
  have r: "list_all (\<lambda>i. 0 \<le> i \<and> i < int (length (allItems t))) ?sel"
    using assms(1) by (rule sorted_selection_in_range)
  have ne: "?sel \<noteq> []"
    using assms(2) by (metis length_sort length_0_conv)
  then have g: "py_getitem ?sel (- 1) = Inr (last ?sel)"
    by (cases ?sel rule: rev_cases) (simp_all add: py_getitem_def nth_append)
  obtain ys where y: "py_getitems (allItems t) ?sel = Inr ys"
    using py_getitems_in_range [OF r] by blast
  obtain items' where l: "pop_insert_loop ?c (rev ?sel) (allItems t) = Inr items'"
    using pop_insert_loop_in_range [of "allItems t" "rev ?sel"] r by auto
  show ?thesis
    using g y l select_loop_no_IndexError
    by (simp add: moveSelectedItemsDown_def Let_def and_then_def getItems_def q_allItems_def)
qed

text \<open>
  C1.  Moving a selection up is meant to keep the selected items in their order.  With
  two adjacent rows selected (multi-selection on) and \<open>count = 1\<close> the loop, which visits
  the selected indices from the largest down, moves the lower row twice and the upper row
  not at all: from a, b, c, d with c and d selected the list becomes a, d, b, c, so d now
  precedes c.
\<close>

theorem moveSelectedItemsUp_adjacent_rows:
  "moveSelectedItemsUp 1
     \<lparr>allItems = [''a'', ''b'', ''c'', ''d''], selectIndexedItem = [3, 4],
      allowMultiSelection = True\<rparr>
   = Inr \<lparr>allItems = [''a'', ''d'', ''b'', ''c''], selectIndexedItem = [2, 3],
          allowMultiSelection = True\<rparr>"
  by (simp add: tsl_defs)

text \<open>
  C2.  After a move the selection is set again at the shifted indices and should show the
  items that were selected before.  On the same input as above the selected items were
  c and d before the move and are d and b after it.
\<close>

theorem moveSelectedItemsUp_selection_after:
  "getSelectedItems
     \<lparr>allItems = [''a'', ''b'', ''c'', ''d''], selectIndexedItem = [3, 4],
      allowMultiSelection = True\<rparr> = [''c'', ''d''] \<and>
   map_sum id getSelectedItems
     (moveSelectedItemsUp 1
        \<lparr>allItems = [''a'', ''b'', ''c'', ''d''], selectIndexedItem = [3, 4],
         allowMultiSelection = True\<rparr>) = Inr [''d'', ''b'']"
  by (simp add: tsl_defs)

lemma move_selected_with_selection:
  "host_ok t \<Longrightarrow> getSelectedIdxs t \<noteq> [] \<Longrightarrow>
     moveSelectedItemsUp count t \<noteq> Inl IndexError \<and>
     moveSelectedItemsDown count t \<noteq> Inl IndexError"
  by (simp add: move_up_selected_no_IndexError move_down_selected_no_IndexError)

lemma obj_move_up_empty_selection:
  "getSelectedIdxs (widget s) = [] \<Longrightarrow>
     obj_moveSelectedItemsUp dn str_of count s = Raised IndexError s"
  by (simp add: obj_moveSelectedItemsUp_def py_getitem_def)

lemma obj_move_down_empty_selection:
  "getSelectedIdxs (widget s) = [] \<Longrightarrow>
     obj_moveSelectedItemsDown dn str_of count s = Raised IndexError s"
  by (simp add: obj_moveSelectedItemsDown_def py_getitem_def)

text \<open>
  C10.  With nothing selected both moves are to raise \<open>IndexError\<close>.
  \<open>moveSelectedItemsUp\<close> does (\<open>move_up_empty_selection\<close>), and so do both moves on
  an object list (\<open>obj_move_up_empty_selection\<close>, \<open>obj_move_down_empty_selection\<close>);
  \<open>moveSelectedItemsDown\<close> does when the list has items (\<open>move_down_empty_selection\<close>),
  and with a selection on a consistent host neither move raises it
  (\<open>move_selected_with_selection\<close>).  On a plain text scroll list without items,
  however, \<open>moveSelectedItemsDown\<close> never reaches the selection: \<open>getItems\<close> hands on
  the host's answer \<open>None\<close> without the \<open>or []\<close> that \<open>getSelectedItems\<close> and
  \<open>getSelectedIdxs\<close> apply, and \<open>len(items)\<close> raises \<open>TypeError\<close>.  The same call of
  \<open>moveSelectedItemsUp\<close>, and the same call on an empty object list, raise
  \<open>IndexError\<close>.
\<close>

theorem moveSelectedItemsDown_empty_list_TypeError:
  "moveSelectedItemsDown 1
     \<lparr>allItems = [], selectIndexedItem = [], allowMultiSelection = False\<rparr> = Inl TypeError \<and>
   moveSelectedItemsUp 1
     \<lparr>allItems = [], selectIndexedItem = [], allowMultiSelection = False\<rparr> = Inl IndexError \<and>
   obj_moveSelectedItemsDown False (\<lambda>x. x) 1
     \<lparr>py_items = ([] :: string list),
      widget = \<lparr>allItems = [], selectIndexedItem = [], allowMultiSelection = False\<rparr>\<rparr>
     = Raised IndexError
         \<lparr>py_items = [],
          widget = \<lparr>allItems = [], selectIndexedItem = [], allowMultiSelection = False\<rparr>\<rparr>"
  by (simp add: tsl_defs obj_moveSelectedItemsDown_def)

subsection \<open>The object scroll list\<close>

lemma lockstep_nth:
  "lockstep dn str_of s \<longleftrightarrow>
     length (allItems (widget s)) = length (py_items s) \<and>
     (\<forall>i < length (py_items s). allItems (widget s) ! i = itemAsStr dn str_of (py_items s ! i))"
  by (auto simp: lockstep_def list_eq_iff_nth_eq)

lemma lockstep_obj_append: "lockstep dn str_of s \<Longrightarrow> lockstep dn str_of (obj_append dn str_of item s)"
  by (simp add: lockstep_def obj_append_def e_append_def)

lemma lockstep_obj_clear: "lockstep dn str_of (obj_clear s)"
  by (simp add: lockstep_def obj_clear_def e_removeAll_def)

lemma lockstep_fold_append:
  "lockstep dn str_of s \<Longrightarrow> lockstep dn str_of (fold (obj_append dn str_of) xs s)"
  by (induction xs arbitrary: s) (simp_all add: lockstep_obj_append)

lemma lockstep_obj_setItems: "lockstep dn str_of (obj_setItems dn str_of xs s)"
  by (simp add: obj_setItems_def lockstep_fold_append lockstep_obj_clear)

lemma obj_removeByIdx_in_range:
  assumes "lockstep dn str_of s" "0 \<le> idx" "idx < int (length (py_items s))"
  shows "\<exists>s'. obj_removeByIdx idx s = Returned s' \<and> lockstep dn str_of s'"
proof -
  let ?rest = "take (nat idx) (py_items s) @ drop (Suc (nat idx)) (py_items s)"
  let ?w = "(widget s)\<lparr>allItems := take (nat idx) (allItems (widget s)) @
                                     drop (nat (idx + 1)) (allItems (widget s)),
                        selectIndexedItem :=
                          map (\<lambda>j. if idx + 1 < j then j - 1 else j)
                            (filter (\<lambda>j. j \<noteq> idx + 1) (selectIndexedItem (widget s)))\<rparr>"
  from assms(1) have len: "length (allItems (widget s)) = length (py_items s)"
    by (simp add: lockstep_def)
  have p: "py_pop (py_items s) idx = Inr (py_items s ! nat idx, ?rest)"
    using assms(2,3) by (simp add: py_pop_def Let_def)
  have r: "e_removeIndexedItem (idx + 1) (widget s) = Inr ?w"
    using assms(2,3) len by (simp add: e_removeIndexedItem_def)
  have eq: "obj_removeByIdx idx s = Returned (s\<lparr>py_items := ?rest, widget := ?w\<rparr>)"
    by (simp add: obj_removeByIdx_def p r)
  have "nat (idx + 1) = Suc (nat idx)" using assms(2) by simp
  with assms(1) have "lockstep dn str_of (s\<lparr>py_items := ?rest, widget := ?w\<rparr>)"
    by (simp add: lockstep_def take_map drop_map)
  with eq show ?thesis by simp
qed

lemma lockstep_obj_removeByIdx:
  assumes "lockstep dn str_of s" "obj_removeByIdx idx s = Returned s'"
  shows "lockstep dn str_of s'"
proof -
  from assms(2) obtain item rest w where
    p: "py_pop (py_items s) idx = Inr (item, rest)" and
    r: "e_removeIndexedItem (idx + 1) (widget s) = Inr w"
    by (auto simp: obj_removeByIdx_def split: sum.splits)
  from r have "0 \<le> idx" "idx < int (length (allItems (widget s)))"
    by (auto simp: e_removeIndexedItem_def split: if_splits)
  with assms(1) have "0 \<le> idx" "idx < int (length (py_items s))"
    by (simp_all add: lockstep_def)
  from obj_removeByIdx_in_range [OF assms(1) this] assms(2) show ?thesis
    by simp
qed

lemma obj_removeByIdx_out_of_range:
  assumes "idx < - int (length (py_items s)) \<or> int (length (py_items s)) \<le> idx"
  shows "obj_removeByIdx idx s = Raised IndexError s"
  using assms by (auto simp: obj_removeByIdx_def py_pop_def Let_def)

lemma obj_removeByIdx_negative:
  assumes "lockstep dn str_of s" "- int (length (py_items s)) \<le> idx" "idx < 0"
  shows "\<exists>s'. obj_removeByIdx idx s = Raised RuntimeError s' \<and>
              widget s' = widget s \<and>
              Suc (length (py_items s')) = length (allItems (widget s')) \<and>
              \<not> lockstep dn str_of s'"
proof -
  let ?j = "nat (idx + int (length (py_items s)))"
  let ?rest = "take ?j (py_items s) @ drop (Suc ?j) (py_items s)"
  from assms(1) have len: "length (allItems (widget s)) = length (py_items s)"
    by (simp add: lockstep_def)
  have p: "py_pop (py_items s) idx = Inr (py_items s ! ?j, ?rest)"
    using assms(2,3) by (simp add: py_pop_def Let_def)
  have r: "e_removeIndexedItem (idx + 1) (widget s) = Inl RuntimeError"
    using assms(3) by (simp add: e_removeIndexedItem_def)
  have eq: "obj_removeByIdx idx s = Raised RuntimeError (s\<lparr>py_items := ?rest\<rparr>)"
    by (simp add: obj_removeByIdx_def p r)
  have short: "Suc (length ?rest) = length (allItems (widget s))"
    using assms(2,3) len by auto
  then have "allItems (widget s) \<noteq> map (itemAsStr dn str_of) ?rest"
    by (metis length_map n_not_Suc_n)
  with eq short show ?thesis
    by (simp add: lockstep_def)
qed

lemma py_index_in_range:
  "v \<in> set xs \<Longrightarrow> \<exists>i. py_index xs v = Inr i \<and> 0 \<le> i \<and> i < int (length xs)"
  by (induction xs) (auto simp: and_then_def)

declare remove_matching.simps [simp del]

lemma lockstep_remove_matching:
  "lockstep dn str_of s \<Longrightarrow>
     \<exists>s'. remove_matching dn str_of valueStr i s = Returned s' \<and> lockstep dn str_of s'"
proof (induction dn str_of valueStr i s rule: remove_matching.induct)
  case (1 dn str_of valueStr i s)
  show ?case
  proof (cases "i < length (py_items s)")
    case False
    with "1.prems" show ?thesis by (simp add: remove_matching.simps)
  next
    case inside: True
    show ?thesis
    proof (cases "itemAsStr dn str_of (py_items s ! i) = valueStr")
      case False
      with inside "1.IH"(2) "1.prems" show ?thesis
        by (simp add: remove_matching.simps [of dn str_of valueStr i s])
    next
      case True
      from obj_removeByIdx_in_range [OF "1.prems", of "int i"] inside
      obtain s' where s': "obj_removeByIdx (int i) s = Returned s'"
        and l': "lockstep dn str_of s'" by auto
      from s' obtain item rest w where
        p: "py_pop (py_items s) (int i) = Inr (item, rest)" and
        r: "e_removeIndexedItem (int i + 1) (widget s) = Inr w" and
        eq: "s' = s\<lparr>py_items := rest, widget := w\<rparr>"
        by (auto simp: obj_removeByIdx_def split: sum.splits)
      from "1.IH"(1) [OF inside True p refl r] eq l'
      have "\<exists>s''. remove_matching dn str_of valueStr (Suc i) s' = Returned s'' \<and>
                   lockstep dn str_of s''"
        by simp
      with inside True p r eq show ?thesis
        by (simp add: remove_matching.simps [of dn str_of valueStr i s])
    qed
  qed
qed

lemma lockstep_obj_removeByValue:
  assumes "lockstep dn str_of s"
  shows "\<exists>s'. obj_removeByValue dn str_of v s = Returned s' \<and> lockstep dn str_of s'"
proof (cases "v \<in> set (py_items s)")
  case True
  from py_index_in_range [OF True] obtain i where
    i: "py_index (py_items s) v = Inr i" "0 \<le> i" "i < int (length (py_items s))" by blast
  from obj_removeByIdx_in_range [OF assms i(2,3)] True i(1) show ?thesis
    by (simp add: obj_removeByValue_def)
next
  case False
  with lockstep_remove_matching [OF assms] show ?thesis
    by (simp add: obj_removeByValue_def)
qed

lemma obj_select_loop_keeps_items:
  "obj_select_loop d idxs s = Returned s' \<or> obj_select_loop d idxs s = Raised e s' \<Longrightarrow>
     py_items s' = py_items s \<and> allItems (widget s') = allItems (widget s)"
proof (induction idxs arbitrary: s)
  case Nil
  then show ?case by auto
next
  case (Cons idx rest)
  show ?case
  proof (cases "selectByIdx (idx + d) (widget s)")
    case (Inl err)
    with Cons.prems show ?thesis by auto
  next
    case (Inr w)
    then have w: "allItems w = allItems (widget s)"
      by (auto simp: selectByIdx_def e_selectIndexedItem_def split: if_splits)
    from Cons.prems Inr
    have "obj_select_loop d rest (s\<lparr>widget := w\<rparr>) = Returned s' \<or>
          obj_select_loop d rest (s\<lparr>widget := w\<rparr>) = Raised e s'"
      by simp
    from Cons.IH [OF this] w show ?thesis by simp
  qed
qed

lemma obj_select_loop_returns:
  "list_all (\<lambda>idx. 1 \<le> idx + d + 1 \<and> idx + d + 1 \<le> int (length (allItems (widget s)))) idxs \<Longrightarrow>
     \<exists>s'. obj_select_loop d idxs s = Returned s'"
proof (induction idxs arbitrary: s)
  case Nil
  then show ?case by simp
next
  case (Cons idx rest)
  then obtain w where w: "selectByIdx (idx + d) (widget s) = Inr w"
    by (auto simp: selectByIdx_def e_selectIndexedItem_def)
  then have "allItems w = allItems (widget s)"
    by (auto simp: selectByIdx_def e_selectIndexedItem_def split: if_splits)
  with Cons.prems Cons.IH [of "s\<lparr>widget := w\<rparr>"] w show ?case
    by simp
qed

lemma allItems_fold_append:
  "allItems (fold (\<lambda>item. e_append (f item)) xs t) = allItems t @ map f xs"
  by (induction xs arbitrary: t) (simp_all add: e_append_def)

lemma lockstep_obj_update:
  assumes "obj_update dn str_of ms s = Returned s' \<or> obj_update dn str_of ms s = Raised e s'"
  shows "lockstep dn str_of s'"
proof -
  let ?w = "fold (\<lambda>item. e_append (itemAsStr dn str_of item)) (py_items s) (e_removeAll (widget s))"
  have filled: "allItems ?w = map (itemAsStr dn str_of) (py_items s)"
    by (simp add: allItems_fold_append e_removeAll_def)
  show ?thesis
  proof (cases ms)
    case False
    with assms filled show ?thesis
      by (auto simp: obj_update_def Let_def lockstep_def)
  next
    case True
    with assms
    have "obj_select_loop 0 (getSelectedIdxs (widget s)) (s\<lparr>widget := ?w\<rparr>) = Returned s' \<or>
          obj_select_loop 0 (getSelectedIdxs (widget s)) (s\<lparr>widget := ?w\<rparr>) = Raised e s'"
      by (simp add: obj_update_def Let_def)
    from obj_select_loop_keeps_items [OF this] filled show ?thesis
      by (simp add: lockstep_def)
  qed
qed

lemma obj_update_returns:
  assumes "lockstep dn str_of s" "host_ok (widget s)"
  shows "\<exists>s'. obj_update dn str_of ms s = Returned s'"
proof -
  let ?w = "fold (\<lambda>item. e_append (itemAsStr dn str_of item)) (py_items s) (e_removeAll (widget s))"
  have len: "length (allItems ?w) = length (allItems (widget s))"
    using assms(1) by (simp add: allItems_fold_append e_removeAll_def lockstep_def)
  have "list_all (\<lambda>idx. 1 \<le> idx + 0 + 1 \<and>
                        idx + 0 + 1 \<le> int (length (allItems (widget (s\<lparr>widget := ?w\<rparr>)))))
          (getSelectedIdxs (widget s))"
    using assms(2) len
    by (auto simp: host_ok_def getSelectedIdxs_def q_selectIndexedItem_def list_all_iff)
  from obj_select_loop_returns [OF this] show ?thesis
    by (auto simp: obj_update_def Let_def)
qed

text \<open>
  What holds of the lock-step.  From a state in lock-step \<open>append\<close> and
  \<open>removeByValue\<close> return a state in lock-step, and so does \<open>removeByIdx\<close> for every
  index \<open>0 \<le> idx < len(_items)\<close>; \<open>setItems\<close>, \<open>clear\<close> and \<open>update\<close> establish the
  lock-step from any state, \<open>update\<close> also when its re-selection raises.
\<close>

lemma lockstep_kept:
  assumes "lockstep dn str_of s"
  shows "lockstep dn str_of (obj_append dn str_of item s) \<and>
         (0 \<le> idx \<and> idx < int (length (py_items s)) \<longrightarrow>
            (\<exists>s'. obj_removeByIdx idx s = Returned s' \<and> lockstep dn str_of s')) \<and>
         (\<exists>s'. obj_removeByValue dn str_of v s = Returned s' \<and> lockstep dn str_of s') \<and>
         lockstep dn str_of (obj_setItems dn str_of xs s0) \<and>
         lockstep dn str_of (obj_clear s0) \<and>
         (\<forall>s'. obj_update dn str_of ms s0 = Returned s' \<or>
               obj_update dn str_of ms s0 = Raised e s' \<longrightarrow> lockstep dn str_of s') \<and>
         (host_ok (widget s) \<longrightarrow> (\<exists>s'. obj_update dn str_of ms s = Returned s'))"
  using assms lockstep_obj_append [of dn str_of s item]
    obj_removeByIdx_in_range [of dn str_of s idx]
    lockstep_obj_removeByValue [of dn str_of s v]
    lockstep_obj_setItems [of dn str_of xs s0]
    lockstep_obj_clear [of dn str_of s0]
    lockstep_obj_update [of dn str_of ms s0 _ e]
    obj_update_returns [of dn str_of s ms]
  by blast

text \<open>
  C3.  The shadow sequence \<open>_items\<close> is to stay in lock-step with the host's display
  sequence after any \<open>removeByIdx\<close>.  \<open>removeByIdx\<close> pops \<open>_items[idx]\<close> first and
  asks the host to remove row \<open>idx + 1\<close> afterwards.  For \<open>idx = -1\<close> the pop takes
  the last object, as Python counts a negative index from the end, and the host is asked
  for row 0, which it has not: the host call raises and the list has lost an object
  whose string the host still shows.  With the objects a and b stored and shown,
  \<open>removeByIdx(-1)\<close> leaves the object a alone against the two rows a and b.
  (\<open>obj_removeByIdx_negative\<close> has this for every index from \<open>-len(_items)\<close> to
  \<open>-1\<close>; \<open>lockstep_kept\<close> has what does hold.)
\<close>

theorem obj_removeByIdx_last_by_negative_index:
  "lockstep False (\<lambda>x. x)
     \<lparr>py_items = [''a'', ''b''],
      widget = \<lparr>allItems = [''a'', ''b''], selectIndexedItem = [],
                allowMultiSelection = False\<rparr>\<rparr> \<and>
   obj_removeByIdx (- 1)
     \<lparr>py_items = [''a'', ''b''],
      widget = \<lparr>allItems = [''a'', ''b''], selectIndexedItem = [],
                allowMultiSelection = False\<rparr>\<rparr>
     = Raised RuntimeError
         \<lparr>py_items = [''a''],
          widget = \<lparr>allItems = [''a'', ''b''], selectIndexedItem = [],
                    allowMultiSelection = False\<rparr>\<rparr> \<and>
   lockstep False (\<lambda>x. x)
     \<lparr>py_items = [''a''],
      widget = \<lparr>allItems = [''a'', ''b''], selectIndexedItem = [],
                allowMultiSelection = False\<rparr>\<rparr> = False"
  by (simp add: lockstep_def itemAsStr_def obj_removeByIdx_def py_pop_def
        e_removeIndexedItem_def Let_def)


subsection \<open>Pane sizes\<close>

text \<open>
  C6.  The wrapper's indices are 0-based and the host's 1-based, so an operation given
  \<open>idx\<close> should query and edit host pane \<open>idx + 1\<close>.  \<open>setPaneWidth\<close> and
  \<open>setPaneHeight\<close> add one and then call \<open>getPaneSize\<close>, which adds one again: they
  read the size of host pane \<open>idx + 2\<close> and write it to host pane \<open>idx + 1\<close>.  With
  pane 1 of size 100 x 200 and pane 2 of size 300 x 400, \<open>setPaneWidth(0, 50)\<close> queries
  pane 2 and edits pane 1 with 300.
\<close>

theorem setPaneWidth_reads_next_pane:
  "fst (setPaneWidth paneSize idx sz) ! 0 = QueryPaneSize (idx + 2) \<and>
   fst (setPaneHeight paneSize idx sz) ! 0 = QueryPaneSize (idx + 2) \<and>
   setPaneWidth (\<lambda>i. if i = 1 then [100, 200] else [300, 400]) 0 50
     = ([QueryPaneSize 2, EditPaneSize 1 300 50], None)"
  by (simp add: setPaneWidth_def setPaneHeight_def getPaneSize_def py_getitem_def Let_def
        split: sum.splits)

subsection \<open>Visibility\<close>

text \<open>
  C7.  Hiding a widget sets its size to (1, 1); showing it again gives back the size it
  had before it was hidden, and the widget is visible.  This holds for every state of
  the widget, visible or not.
\<close>

theorem hide_then_show_restores_size:
  "getSize (setVisibility False s) = (1, 1) \<and>
   getSize (setVisibility True (setVisibility False s)) = getSize s \<and>
   getVisibility (setVisibility True (setVisibility False s))"
  by (simp add: setVisibility_def getSize_def setSize_def getVisibility_def Let_def)

subsection \<open>The instance registry\<close>

lemma iter_loop_filter:
  "iter_loop exists c l acc =
     acc @ filter (\<lambda>i. isinstance i c \<and> exists (WIDGET_CMD c) (inst_name i)) l"
  by (induction l arbitrary: acc) simp_all

lemma base_in_mro: "BaseMelWidget \<in> set (mro c)"
  by (cases c) simp_all

lemma self_first_in_mro: "\<exists>rest. mro c = c # rest"
  by (cases c) simp_all

lemma isinstance_base: "isinstance i BaseMelWidget"
  by (simp add: isinstance_def base_in_mro)

lemma lookup_attr_found:
  "c \<in> set cs \<Longrightarrow> a c = Some l \<Longrightarrow> \<exists>owner l'. lookup_attr a cs = Some (owner, l')"
  by (induction cs) (auto split: option.splits)

lemma get_INSTANCE_LIST_defined:
  assumes "a BaseMelWidget = Some l0"
  shows "\<exists>l. get_INSTANCE_LIST a c = Inr l"
  using lookup_attr_found [of BaseMelWidget "mro c" a l0] base_in_mro [of c] assms
  by (auto simp: get_INSTANCE_LIST_def)

lemma get_INSTANCE_LIST_own:
  "a c = Some l \<Longrightarrow> get_INSTANCE_LIST a c = Inr l"
  using self_first_in_mro [of c] by (auto simp: get_INSTANCE_LIST_def)

lemma IterInstances_result:
  assumes "a BaseMelWidget = Some l0"
  shows "\<exists>l. get_INSTANCE_LIST a c = Inr l \<and>
           IterInstances exists c a =
             Inr (filter (\<lambda>i. isinstance i c \<and> exists (WIDGET_CMD c) (inst_name i)) l,
                  a(c \<mapsto> filter (\<lambda>i. isinstance i c \<and> exists (WIDGET_CMD c) (inst_name i)) l)) \<and>
           (c = BaseMelWidget \<longrightarrow> l = l0)"
proof -
  from get_INSTANCE_LIST_defined [of a l0 c] assms obtain l where
    l: "get_INSTANCE_LIST a c = Inr l" by blast
  have base: "c = BaseMelWidget \<Longrightarrow> l = l0"
    using l assms by (simp add: get_INSTANCE_LIST_own)
  show ?thesis
    using l base
    by (auto simp: IterInstances_def and_then_def iter_loop_filter Let_def)
qed

text \<open>
  C4.  The process-wide registry is the list bound to \<open>_INSTANCE_LIST\<close> on
  \<open>BaseMelWidget\<close> (line 52).  Every completed \<open>IterInstances\<close>, on whatever class
  \<open>c\<close>, returns and leaves that list pruned of stale entries only.  Called on
  \<open>BaseMelWidget\<close> it keeps, in their order, exactly the entries for which the host
  answers \<open>cmd.control(inst, q=True, exists=True)\<close> with true; called on a subclass
  it leaves the list as it was, since the final assignment binds the name on the
  subclass.  So an entry whose widget the host reports as existing is in the registry
  afterwards, and an entry that is no longer there is one the host reported as gone.
\<close>

theorem IterInstances_prunes_only_stale_entries:
  assumes "a BaseMelWidget = Some l0"
  shows "\<exists>yielded a' l1.
           IterInstances exists c a = Inr (yielded, a') \<and>
           a' BaseMelWidget = Some l1 \<and>
           l1 = (if c = BaseMelWidget
                 then filter (\<lambda>i. exists (WIDGET_CMD BaseMelWidget) (inst_name i)) l0
                 else l0) \<and>
           (\<forall>i \<in> set l0. exists (WIDGET_CMD BaseMelWidget) (inst_name i) \<longrightarrow> i \<in> set l1) \<and>
           (\<forall>i \<in> set l0. i \<notin> set l1 \<longrightarrow>
              c = BaseMelWidget \<and> \<not> exists (WIDGET_CMD BaseMelWidget) (inst_name i))"
proof -
  let ?keep = "\<lambda>l. filter (\<lambda>i. isinstance i c \<and> exists (WIDGET_CMD c) (inst_name i)) l"
  from IterInstances_result [of a l0 c exists] assms obtain l where
    r: "IterInstances exists c a = Inr (?keep l, a(c \<mapsto> ?keep l))" and
    base: "c = BaseMelWidget \<longrightarrow> l = l0"
    by blast
  show ?thesis
  proof (cases "c = BaseMelWidget")
    case True
    with base have "?keep l = filter (\<lambda>i. exists (WIDGET_CMD BaseMelWidget) (inst_name i)) l0"
      by (simp add: isinstance_base)
    with r True show ?thesis by auto
  next
    case False
    with assms have "(a(c \<mapsto> ?keep l)) BaseMelWidget = Some l0" by simp
    with r False show ?thesis by auto
  qed
qed

theorem IterInstances_prunes_only_stale_entries_witness:
  "((\<lambda>c. None)(BaseMelWidget \<mapsto>
        [\<lparr>inst_name = ''text0'', inst_cls = MelLabel\<rparr>,
         \<lparr>inst_name = ''button0'', inst_cls = MelButton\<rparr>])) BaseMelWidget
     = Some [\<lparr>inst_name = ''text0'', inst_cls = MelLabel\<rparr>,
             \<lparr>inst_name = ''button0'', inst_cls = MelButton\<rparr>] \<and>
   IterInstances (\<lambda>cmd name. name = ''button0'') BaseMelWidget
     ((\<lambda>c. None)(BaseMelWidget \<mapsto>
        [\<lparr>inst_name = ''text0'', inst_cls = MelLabel\<rparr>,
         \<lparr>inst_name = ''button0'', inst_cls = MelButton\<rparr>]))
     = Inr ([\<lparr>inst_name = ''button0'', inst_cls = MelButton\<rparr>],
            (\<lambda>c. None)(BaseMelWidget \<mapsto> [\<lparr>inst_name = ''button0'', inst_cls = MelButton\<rparr>])) \<and>
   map_sum id (\<lambda>(yielded, a'). a' BaseMelWidget)
     (IterInstances (\<lambda>cmd name. True) MelButton
        ((\<lambda>c. None)(BaseMelWidget \<mapsto>
           [\<lparr>inst_name = ''text0'', inst_cls = MelLabel\<rparr>,
            \<lparr>inst_name = ''button0'', inst_cls = MelButton\<rparr>])))
     = Inr (Some [\<lparr>inst_name = ''text0'', inst_cls = MelLabel\<rparr>,
                  \<lparr>inst_name = ''button0'', inst_cls = MelButton\<rparr>])"
  using IterInstances_prunes_only_stale_entries
    [of "(\<lambda>c. None)(BaseMelWidget \<mapsto>
        [\<lparr>inst_name = ''text0'', inst_cls = MelLabel\<rparr>,
         \<lparr>inst_name = ''button0'', inst_cls = MelButton\<rparr>])"
        "[\<lparr>inst_name = ''text0'', inst_cls = MelLabel\<rparr>,
         \<lparr>inst_name = ''button0'', inst_cls = MelButton\<rparr>]"
        "(\<lambda>cmd name. name = ''button0'')" BaseMelWidget]
  by (simp add: IterInstances_def get_INSTANCE_LIST_def and_then_def isinstance_def Let_def)

subsection \<open>Rehydration\<close>

lemma INSTANCE_LIST_append_defined:
  assumes "a BaseMelWidget = Some l0"
  shows "\<exists>a'. INSTANCE_LIST_append c new a = Inr a'"
  using lookup_attr_found [of BaseMelWidget "mro c" a l0] base_in_mro [of c] assms
  by (auto simp: INSTANCE_LIST_append_def)

lemma first_candidate:
  "(case filter P xs of [] \<Rightarrow> c | first # rest \<Rightarrow> first) = r \<Longrightarrow>
     (if list_ex P xs then P r \<and> r \<in> set xs else r = c)"
proof (cases "filter P xs")
  case Nil
  assume "(case filter P xs of [] \<Rightarrow> c | first # rest \<Rightarrow> first) = r"
  with Nil show ?thesis by (auto simp: list_ex_iff filter_empty_conv)
next
  case (Cons y ys)
  assume "(case filter P xs of [] \<Rightarrow> c | first # rest \<Rightarrow> first) = r"
  with Cons have "r = y" by simp
  moreover from Cons have "y \<in> set (filter P xs)" by simp
  ultimately show ?thesis by (auto simp: list_ex_iff)
qed

text \<open>
  C5.  For a widget name the host knows, \<open>FromStr\<close> returns an instance of that name
  whose class declares the command that belongs to the host's type string, whenever
  some registered subclass declares it; otherwise the instance has the class \<open>FromStr\<close>
  was called on (\<open>BaseMelWidget\<close> for \<open>BaseMelWidget.FromStr\<close>).  The only host call
  is the type query: no creation command is run.
\<close>

theorem FromStr_class_matches_host_type:
  assumes "objectTypeUI theStr = Some uiTypeStr" and "a BaseMelWidget = Some l0"
  shows "\<exists>new a'.
           FromStr objectTypeUI has_cmd subclasses c theStr a
             = ([ObjectTypeUI theStr], Inr (new, a')) \<and>
           inst_name new = theStr \<and>
           (case ui_cmd has_cmd uiTypeStr of
              None \<Rightarrow> inst_cls new = c
            | Some uiCmd \<Rightarrow>
                if list_ex (\<lambda>subCls. WIDGET_CMD subCls = uiCmd) subclasses
                then WIDGET_CMD (inst_cls new) = uiCmd \<and> inst_cls new \<in> set subclasses
                else inst_cls new = c) \<and>
           \<not> list_ex is_Create (fst (FromStr objectTypeUI has_cmd subclasses c theStr a))"
proof (cases "ui_cmd has_cmd uiTypeStr")
  case None
  let ?new = "\<lparr>inst_name = theStr, inst_cls = c\<rparr>"
  from INSTANCE_LIST_append_defined [of a l0 c ?new] assms(2) obtain a' where
    "INSTANCE_LIST_append c ?new a = Inr a'" by blast
  with assms(1) None show ?thesis
    by (simp add: FromStr_def Let_def and_then_def is_Create_def)
next
  case (Some uiCmd)
  let ?cls = "case filter (\<lambda>subCls. WIDGET_CMD subCls = uiCmd) subclasses of
                [] \<Rightarrow> c | first # rest \<Rightarrow> first"
  let ?new = "\<lparr>inst_name = theStr, inst_cls = ?cls\<rparr>"
  have cls: "if list_ex (\<lambda>subCls. WIDGET_CMD subCls = uiCmd) subclasses
             then WIDGET_CMD ?cls = uiCmd \<and> ?cls \<in> set subclasses else ?cls = c"
    by (rule first_candidate [OF refl])
  from INSTANCE_LIST_append_defined [of a l0 c ?new] assms(2) obtain a' where
    "INSTANCE_LIST_append c ?new a = Inr a'" by blast
  with assms(1) Some cls show ?thesis
    by (simp add: FromStr_def Let_def and_then_def is_Create_def)
qed

theorem FromStr_class_matches_host_type_witness:
  "(\<lambda>n. if n = ''b1'' then Some ''button'' else None) ''b1'' = Some ''button'' \<and>
   ((\<lambda>c. None)(BaseMelWidget \<mapsto> [])) BaseMelWidget = Some [] \<and>
   FromStr (\<lambda>n. if n = ''b1'' then Some ''button'' else None) (\<lambda>n. True)
       [MelLabel, MelButton] BaseMelWidget ''b1'' ((\<lambda>c. None)(BaseMelWidget \<mapsto> []))
     = ([ObjectTypeUI ''b1''],
        Inr (\<lparr>inst_name = ''b1'', inst_cls = MelButton\<rparr>,
             (\<lambda>c. None)(BaseMelWidget \<mapsto> [\<lparr>inst_name = ''b1'', inst_cls = MelButton\<rparr>])))"
  using FromStr_class_matches_host_type
    [of "\<lambda>n. if n = ''b1'' then Some ''button'' else None" "''b1''" "''button''"
        "(\<lambda>c. None)(BaseMelWidget \<mapsto> [])" "[]" "\<lambda>n. True" "[MelLabel, MelButton]" BaseMelWidget]
  by (simp add: FromStr_def ui_cmd_def TYPE_NAMES_TO_CMDS_def INSTANCE_LIST_append_def
        and_then_def Let_def)

end
